theory Spec2Isabelle
  imports Complex_Main "HOL-Library.Multiset"
begin

section \<open>Arrays and errors\<close>

text \<open>
  The evaluation code of \<^verbatim>\<open>kp2dsonar/evaluation/detector_evaluation_sonar.py\<close> works on
  two-dimensional NumPy arrays of floats. An array of shape \<open>(N, C)\<close> is a record of its
  column count \<open>C\<close> and its \<open>N\<close> rows; the column count is kept apart from the rows because
  an array of shape \<open>(0, C)\<close> still has \<open>C\<close> columns. Floats are idealised as reals.
  The exceptions NumPy raises on the paths modelled here are values of \<open>error\<close>.
\<close>

datatype error = IndexError | ValueError | LinAlgError

record ndarray =
  ncols :: nat
  rows :: "real list list"

definition wf_ndarray :: "ndarray \<Rightarrow> bool" where
  "wf_ndarray A = list_all (\<lambda>r. length r = ncols A) (rows A)"

text \<open>\<^verbatim>\<open>A[:, j]\<close> for a literal \<open>j \<ge> 0\<close>: IndexError when the array has no column \<open>j\<close>.\<close>

definition column :: "ndarray \<Rightarrow> nat \<Rightarrow> error + real list" where
  "column A j = (if j < ncols A then Inr (map (\<lambda>r. r ! j) (rows A)) else Inl IndexError)"

text \<open>\<^verbatim>\<open>A[mask, :]\<close> for a boolean vector: IndexError when the mask's length is not the
  number of rows, else the rows at which the mask is true, in order.\<close>

definition bool_index :: "ndarray \<Rightarrow> bool list \<Rightarrow> error + ndarray" where
  "bool_index A msk =
     (if length msk \<noteq> length (rows A) then Inl IndexError
      else Inr (A\<lparr>rows := map fst (filter snd (zip (rows A) msk))\<rparr>))"

text \<open>\<^verbatim>\<open>xs[i:]\<close>: a negative start counts from the end and is clamped at the front.\<close>

definition slice_from :: "int \<Rightarrow> 'a list \<Rightarrow> 'a list" where
  "slice_from i xs =
     (if i < 0 then drop (nat (int (length xs) + i)) xs else drop (nat i) xs)"

section \<open>The helpers of \<open>compute_repeatability_sonar\<close>\<close>

text \<open>
  \<^verbatim>\<open>
  mask = (c0 >= 0) & (c0 < shape[0]) & (c1 >= 0) & (c1 < shape[1])
  \<close>
  on two column vectors, elementwise.
\<close>

definition bounds_mask :: "real list \<Rightarrow> real list \<Rightarrow> int \<times> int \<Rightarrow> bool list" where
  "bounds_mask c0 c1 shape =
     map (\<lambda>(x, y). x \<ge> 0 \<and> x < of_int (fst shape) \<and> y \<ge> 0 \<and> y < of_int (snd shape))
       (zip c0 c1)"

definition filter_keypoints :: "ndarray \<Rightarrow> int \<times> int \<Rightarrow> error + ndarray" where
  "filter_keypoints points shape =
     (case column points 0 of Inl e \<Rightarrow> Inl e | Inr c0 \<Rightarrow>
      case column points 1 of Inl e \<Rightarrow> Inl e | Inr c1 \<Rightarrow>
        bool_index points (bounds_mask c0 c1 shape))"

definition keep_true_keypoints :: "ndarray \<Rightarrow> ndarray \<Rightarrow> int \<times> int \<Rightarrow> error + ndarray" where
  "keep_true_keypoints points ckw shape =
     (case column ckw 0 of Inl e \<Rightarrow> Inl e | Inr c0 \<Rightarrow>
      case column ckw 1 of Inl e \<Rightarrow> Inl e | Inr c1 \<Rightarrow>
        bool_index points (bounds_mask c0 c1 shape))"

text \<open>
  \<^verbatim>\<open>
  def select_k_best(points, k):
      sorted_prob = points[points[:, 2].argsort(), :2]
      start = min(k, points.shape[0])
      return sorted_prob[-start:, :]
  \<close>
  \<open>argsort\<close> is NumPy's, called with its default \<open>kind\<close>, which promises a permutation of
  the indices that puts the keys in ascending order and nothing about the order of equal
  keys. It is a parameter of the model, and \<open>argsort_ok\<close> is what NumPy promises of it.
\<close>

definition argsort_ok :: "(real list \<Rightarrow> nat list) \<Rightarrow> bool" where
  "argsort_ok argsort =
     (\<forall>ks. mset (argsort ks) = mset [0..<length ks] \<and> sorted (map (\<lambda>i. ks ! i) (argsort ks)))"

definition select_k_best :: "(real list \<Rightarrow> nat list) \<Rightarrow> ndarray \<Rightarrow> int \<Rightarrow> error + ndarray" where
  "select_k_best argsort points k =
     (case column points 2 of Inl e \<Rightarrow> Inl e | Inr prob \<Rightarrow>
        let sorted_prob = map (\<lambda>i. take 2 (rows points ! i)) (argsort prob);
            start = min k (int (length (rows points)))
        in Inr \<lparr>ncols = min 2 (ncols points), rows = slice_from (- start) sorted_prob\<rparr>)"

text \<open>One implementation of \<open>argsort\<close> that meets the promise: the stable one.\<close>

definition argsort_stable :: "real list \<Rightarrow> nat list" where
  "argsort_stable ks = sort_key (\<lambda>i. ks ! i) [0..<length ks]"

text \<open>
  \<^verbatim>\<open>
  def normalize_keypoints(kp, f , a):
      return kp / f - a

  def unnormalize_keypoints(kp, f , a):
      return (kp + a)*f
  \<close>
  \<open>kp\<close> is an array of shape \<open>(N, C)\<close>, \<open>f\<close> and \<open>a\<close> are Python lists
  (\<^verbatim>\<open>f = [shape[0] / 2, shape[1] / 2]\<close>, \<^verbatim>\<open>a = [1,1]\<close>); NumPy broadcasts a list of
  length \<open>L\<close> along the rows when \<open>L = C\<close>, \<open>L = 1\<close> or \<open>C = 1\<close>, and raises ValueError
  otherwise. Division by zero gives \<open>inf\<close> or \<open>nan\<close> in NumPy and \<open>0\<close> in HOL: the
  model says nothing true about a zero scale.
\<close>

definition broadcast :: "(real \<Rightarrow> real \<Rightarrow> real) \<Rightarrow> ndarray \<Rightarrow> real list \<Rightarrow> error + ndarray" where
  "broadcast f A v =
     (if ncols A = length v then Inr (A\<lparr>rows := map (\<lambda>r. map2 f r v) (rows A)\<rparr>)
      else if length v = 1 then Inr (A\<lparr>rows := map (map (\<lambda>x. f x (v ! 0))) (rows A)\<rparr>)
      else if ncols A = 1 then
        Inr \<lparr>ncols = length v, rows = map (\<lambda>r. map (f (r ! 0)) v) (rows A)\<rparr>
      else Inl ValueError)"

definition normalize_keypoints :: "ndarray \<Rightarrow> real list \<Rightarrow> real list \<Rightarrow> error + ndarray" where
  "normalize_keypoints kp f a =
     (case broadcast (/) kp f of Inl e \<Rightarrow> Inl e | Inr q \<Rightarrow> broadcast (-) q a)"

definition unnormalize_keypoints :: "ndarray \<Rightarrow> real list \<Rightarrow> real list \<Rightarrow> error + ndarray" where
  "unnormalize_keypoints kp f a =
     (case broadcast (+) kp a of Inl e \<Rightarrow> Inl e | Inr s \<Rightarrow> broadcast (*) s f)"

text \<open>
  Top-k selection as the specification words it: a stable ascending sort by confidence,
  the last \<open>min(k, N)\<close> entries, the confidence stripped. It is compared with
  \<open>select_k_best\<close> below.
\<close>

definition select_top_k_spec :: "ndarray \<Rightarrow> int \<Rightarrow> real list list" where
  "select_top_k_spec S k =
     (let srt = sort_key (\<lambda>r. r ! 2) (rows S);
          n = nat (min k (int (length srt)))
      in map (take 2) (drop (length srt - n) srt))"

section \<open>The repeatability metric\<close>

text \<open>
  Lines 112 to 141 of \<open>compute_repeatability_sonar\<close>, on the two arrays that
  \<open>select_k_best\<close> returned (their rows, each of two coordinates):
  \<^verbatim>\<open>
  N1 = true_warped_keypoints.shape[0]
  N2 = warped_keypoints.shape[0]
  true_warped_keypoints = np.expand_dims(true_warped_keypoints, 1)
  warped_keypoints = np.expand_dims(warped_keypoints, 0)
  norm = np.linalg.norm(true_warped_keypoints - warped_keypoints, ord=None, axis=2)
  count1 = 0; count2 = 0; le1 = 0; le2 = 0
  if N2 != 0:
      min1 = np.min(norm, axis=1)
      correct1 = (min1 <= distance_thresh)
      count1 = np.sum(correct1)
      le1 = min1[correct1].sum()
  if N1 != 0:
      min2 = np.min(norm, axis=0)
      correct2 = (min2 <= distance_thresh)
      count2 = np.sum(correct2)
      le2 = min2[correct2].sum()
  if N1 + N2 > 0 and count1 + count2 > 0:
      repeatability = (count1 + count2) / (N1 + N2)
      loc_err = (le1 + le2) / (count1 + count2)
  else:
      repeatability = -1
      loc_err = -1
  return N1, N2, repeatability, loc_err
  \<close>
  \<open>norm\<close> is the \<open>N1 \<times> N2\<close> matrix of Euclidean distances, \<open>min_axis1\<close> its row minima
  and \<open>min_axis0\<close> its column minima; both are only taken over a non-empty axis, as the
  guards of the source ensure.
\<close>

definition row_norm :: "real list \<Rightarrow> real list \<Rightarrow> real" where
  "row_norm p q = sqrt (sum_list (map2 (\<lambda>x y. (x - y)\<^sup>2) p q))"

definition norm_matrix :: "real list list \<Rightarrow> real list list \<Rightarrow> real list list" where
  "norm_matrix A B = map (\<lambda>p. map (\<lambda>q. row_norm p q) B) A"

definition min_axis1 :: "real list list \<Rightarrow> real list" where
  "min_axis1 M = map min_list M"

definition min_axis0 :: "nat \<Rightarrow> real list list \<Rightarrow> real list" where
  "min_axis0 n M = map (\<lambda>j. min_list (map (\<lambda>row. row ! j) M)) [0..<n]"

definition count_and_error :: "real list \<Rightarrow> real \<Rightarrow> nat \<times> real" where
  "count_and_error mins distance_thresh =
     (let correct = map (\<lambda>m. m \<le> distance_thresh) mins
      in (length (filter id correct), sum_list (map fst (filter snd (zip mins correct)))))"

definition repeatability_metric :: "real list list \<Rightarrow> real list list \<Rightarrow> real \<Rightarrow> nat \<times> nat \<times> real \<times> real" where
  "repeatability_metric true_warped_keypoints warped_keypoints distance_thresh =
     (let N1 = length true_warped_keypoints;
          N2 = length warped_keypoints;
          norm = norm_matrix true_warped_keypoints warped_keypoints;
          (count1, le1) = (if N2 \<noteq> 0 then count_and_error (min_axis1 norm) distance_thresh else (0, 0));
          (count2, le2) = (if N1 \<noteq> 0 then count_and_error (min_axis0 N2 norm) distance_thresh else (0, 0))
      in if N1 + N2 > 0 \<and> count1 + count2 > 0
         then (N1, N2, real (count1 + count2) / real (N1 + N2), (le1 + le2) / real (count1 + count2))
         else (N1, N2, - 1, - 1))"

text \<open>
  The same quantities as the specification words them: the distance of a point to its
  nearest neighbour in the other set, the points that have a neighbour within the
  threshold (none when the other set is empty), their number and the sum of their
  nearest-neighbour distances.
\<close>

definition euclid :: "real list \<Rightarrow> real list \<Rightarrow> real" where
  "euclid p q = sqrt ((p ! 0 - q ! 0)\<^sup>2 + (p ! 1 - q ! 1)\<^sup>2)"

definition nearest :: "real list \<Rightarrow> real list list \<Rightarrow> real" where
  "nearest p Q = Min ((\<lambda>q. euclid p q) ` set Q)"

definition matched :: "real list list \<Rightarrow> real list list \<Rightarrow> real \<Rightarrow> real list list" where
  "matched P Q t = filter (\<lambda>p. Q \<noteq> [] \<and> nearest p Q \<le> t) P"

definition count_AB :: "real list list \<Rightarrow> real list list \<Rightarrow> real \<Rightarrow> nat" where
  "count_AB P Q t = length (matched P Q t)"

definition loc_err_AB :: "real list list \<Rightarrow> real list list \<Rightarrow> real \<Rightarrow> real" where
  "loc_err_AB P Q t = sum_list (map (\<lambda>p. nearest p Q) (matched P Q t))"

definition rows2 :: "real list list \<Rightarrow> bool" where
  "rows2 A = list_all (\<lambda>r. length r = 2) A"

section \<open>The whole of \<open>compute_repeatability_sonar\<close>\<close>

text \<open>
  The input dictionary \<open>data\<close> with the entries the function reads. The homography is
  only handed on to \<open>warp_keypoints\<close> and \<open>np.linalg.inv\<close>, so its type is left open.
\<close>

record sonar_config =
  fov :: real
  r_min :: real
  r_max :: real

record 'h data =
  homography :: 'h
  image_shape :: "int \<times> int"
  sonar_config :: sonar_config
  prob :: ndarray
  warped_prob :: ndarray

text \<open>
  The functions that \<open>compute_repeatability_sonar\<close> calls and that are defined elsewhere:
  \<open>pol_2_cart\<close> and \<open>cart_2_pol\<close> (module \<^verbatim>\<open>kp2dsonar.datasets.noise_model\<close>),
  \<open>warp_keypoints\<close> (module \<^verbatim>\<open>kp2d.utils.keypoints\<close>), \<^verbatim>\<open>np.linalg.inv\<close> and
  \<open>argsort\<close>. They are parameters of the model; each may raise. The conversions to
  and from a torch tensor with a leading batch axis around \<open>pol_2_cart\<close> and
  \<open>cart_2_pol\<close> are part of the parameter.
\<close>

record 'h externals =
  pol_2_cart :: "ndarray \<Rightarrow> real \<Rightarrow> real \<Rightarrow> real \<Rightarrow> error + ndarray"
  cart_2_pol :: "ndarray \<Rightarrow> real \<Rightarrow> real \<Rightarrow> real \<Rightarrow> error + ndarray"
  warp_keypoints :: "ndarray \<Rightarrow> 'h \<Rightarrow> error + ndarray"
  linalg_inv :: "'h \<Rightarrow> error + 'h"
  np_argsort :: "real list \<Rightarrow> nat list"

text \<open>An exception ends the run: the rest of the function is skipped.\<close>

definition bind_err :: "error + 'a \<Rightarrow> ('a \<Rightarrow> error + 'b) \<Rightarrow> error + 'b" where
  "bind_err m f = (case m of Inl e \<Rightarrow> Inl e | Inr x \<Rightarrow> f x)"

text \<open>\<^verbatim>\<open>A[:, :2]\<close>, a slice, which never raises.\<close>

definition first_two_columns :: "ndarray \<Rightarrow> ndarray" where
  "first_two_columns A = \<lparr>ncols = min 2 (ncols A), rows = map (take 2) (rows A)\<rparr>"

text \<open>\<^verbatim>\<open>np.stack([c0, c1, c2], axis=-1)\<close> of three vectors: ValueError unless they have one
  length.\<close>

definition stack3 :: "real list \<Rightarrow> real list \<Rightarrow> real list \<Rightarrow> error + ndarray" where
  "stack3 c0 c1 c2 =
     (if length c0 = length c1 \<and> length c1 = length c2
      then Inr \<lparr>ncols = 3, rows = map (\<lambda>(x, y, z). [x, y, z]) (zip c0 (zip c1 c2))\<rparr>
      else Inl ValueError)"

text \<open>
  \<^verbatim>\<open>A[:, :2] = V\<close>. In \<open>compute_repeatability_sonar\<close> the value \<open>V\<close> is computed from
  \<^verbatim>\<open>A[:, :2]\<close>, so it has the rows of \<open>A\<close>; it has two columns, and the assignment
  raises ValueError when \<open>A\<close> has fewer.
\<close>

definition assign_first_two_columns :: "ndarray \<Rightarrow> ndarray \<Rightarrow> error + ndarray" where
  "assign_first_two_columns A V =
     (if ncols V = min 2 (ncols A) \<and> length (rows V) = length (rows A)
      then Inr (A\<lparr>rows := map (\<lambda>(r, v). v @ drop 2 r) (zip (rows A) (rows V))\<rparr>)
      else Inl ValueError)"

text \<open>
  The function, statement by statement (lines 71 to 141), with \<open>repeatability_metric\<close> for
  its last part.
\<close>

definition compute_repeatability_sonar ::
  "'h externals \<Rightarrow> 'h data \<Rightarrow> int \<Rightarrow> real \<Rightarrow> error + nat \<times> nat \<times> real \<times> real" where
  "compute_repeatability_sonar ext data keep_k_points distance_thresh =
     (let H = homography data;
          shape = image_shape data;
          cfg = sonar_config data;
          f = [of_int (fst shape) / 2, of_int (snd shape) / 2];
          a = [1, 1];
          keypoints = first_two_columns (prob data);
          warped_keypoints = warped_prob data
      in
      bind_err (normalize_keypoints (first_two_columns warped_keypoints) f a) (\<lambda>ckw.
      bind_err (pol_2_cart ext ckw (fov cfg) (r_min cfg) (r_max cfg)) (\<lambda>ckw.
      bind_err (warp_keypoints ext ckw H) (\<lambda>ckw.
      bind_err (column ckw 0) (\<lambda>c0.
      bind_err (column ckw 1) (\<lambda>c1.
      bind_err (column (warped_prob data) 2) (\<lambda>c2.
      bind_err (stack3 c0 c1 c2) (\<lambda>ckw.
      bind_err (cart_2_pol ext ckw (fov cfg) (r_min cfg) (r_max cfg)) (\<lambda>ckw.
      bind_err (unnormalize_keypoints (first_two_columns ckw) f a) (\<lambda>u.
      bind_err (assign_first_two_columns ckw u) (\<lambda>ckw.
      bind_err (keep_true_keypoints warped_keypoints ckw shape) (\<lambda>warped_keypoints.
      bind_err (normalize_keypoints keypoints f a) (\<lambda>twk.
      bind_err (pol_2_cart ext twk (fov cfg) (r_min cfg) (r_max cfg)) (\<lambda>twk.
      bind_err (linalg_inv ext H) (\<lambda>Hinv.
      bind_err (warp_keypoints ext twk Hinv) (\<lambda>twk.
      bind_err (column twk 0) (\<lambda>d0.
      bind_err (column twk 1) (\<lambda>d1.
      bind_err (column (prob data) 2) (\<lambda>d2.
      bind_err (stack3 d0 d1 d2) (\<lambda>twk.
      bind_err (cart_2_pol ext twk (fov cfg) (r_min cfg) (r_max cfg)) (\<lambda>twk.
      bind_err (unnormalize_keypoints (first_two_columns twk) f a) (\<lambda>v.
      bind_err (assign_first_two_columns twk v) (\<lambda>twk.
      bind_err (filter_keypoints twk shape) (\<lambda>true_warped_keypoints.
      bind_err (select_k_best (np_argsort ext) warped_keypoints keep_k_points) (\<lambda>warped_keypoints.
      bind_err (select_k_best (np_argsort ext) true_warped_keypoints keep_k_points) (\<lambda>true_warped_keypoints.
        Inr (repeatability_metric (rows true_warped_keypoints) (rows warped_keypoints)
               distance_thresh)))))))))))))))))))))))))))"

text \<open>
  A concrete run: transforms and warp that leave the points where they are, the identity
  homography, one keypoint in each image.
\<close>

definition identity_externals :: "unit externals" where
  "identity_externals =
     \<lparr>pol_2_cart = (\<lambda>A _ _ _. Inr A), cart_2_pol = (\<lambda>A _ _ _. Inr A),
      warp_keypoints = (\<lambda>A _. Inr A), linalg_inv = (\<lambda>h. Inr h),
      np_argsort = argsort_stable\<rparr>"

definition sample_data :: "unit data" where
  "sample_data =
     \<lparr>homography = (), image_shape = (4, 4),
      sonar_config = \<lparr>fov = 60, r_min = 1 / 10, r_max = 5\<rparr>,
      prob = \<lparr>ncols = 3, rows = [[1, 1, 9 / 10]]\<rparr>,
      warped_prob = \<lparr>ncols = 3, rows = [[1, 1, 8 / 10]]\<rparr>\<rparr>"

section \<open>Bounds filtering\<close>

lemma masked_rows_filter:
  "map fst (filter snd (zip xs (map P xs))) = filter P xs"
  by (induction xs) auto

lemma bounds_mask_columns:
  "bounds_mask (map f rs) (map g rs) shape =
     map (\<lambda>r. 0 \<le> f r \<and> f r < of_int (fst shape) \<and> 0 \<le> g r \<and> g r < of_int (snd shape)) rs"
  by (induction rs) (auto simp: bounds_mask_def)

text \<open>
  C6. On an array with at least two columns, \<open>filter_keypoints\<close> returns the subsequence
  of the rows whose first coordinate is in \<open>[0, height)\<close> and whose second is in
  \<open>[0, width)\<close>; no returned row has first coordinate \<open>height\<close>, so a point at
  \<open>(height, 0)\<close> is excluded.
\<close>

theorem filter_keypoints_half_open:
  assumes "2 \<le> ncols points"
  shows "\<exists>out. filter_keypoints points (height, width) = Inr out
           \<and> ncols out = ncols points
           \<and> rows out = filter (\<lambda>r. 0 \<le> r ! 0 \<and> r ! 0 < of_int height
                                    \<and> 0 \<le> r ! 1 \<and> r ! 1 < of_int width) (rows points)
           \<and> (\<forall>r \<in> set (rows out). r ! 0 \<noteq> of_int height)"
proof -
  let ?P = "\<lambda>r::real list. 0 \<le> r ! 0 \<and> r ! 0 < of_int height \<and> 0 \<le> r ! 1 \<and> r ! 1 < of_int width"
  have "filter_keypoints points (height, width) = Inr (points\<lparr>rows := filter ?P (rows points)\<rparr>)"
    using assms
    by (simp add: filter_keypoints_def column_def bool_index_def bounds_mask_columns
        masked_rows_filter)
  then show ?thesis by auto
qed

theorem filter_keypoints_half_open_witness:
  "\<exists>out. filter_keypoints \<lparr>ncols = 2, rows = [[1, 1], [4, 0], [3, 2]]\<rparr> (4, 5) = Inr out
     \<and> rows out = [[1, 1], [3, 2]]"
  using filter_keypoints_half_open [of "\<lparr>ncols = 2, rows = [[1, 1], [4, 0], [3, 2]]\<rparr>" 4 5]
  by auto

lemma zip_conv_nth:
  "length xs = length ys \<Longrightarrow> zip xs ys = map (\<lambda>i. (xs ! i, ys ! i)) [0..<length xs]"
  by (rule nth_equalityI) auto

lemma masked_rows_index:
  assumes "length xs = length ys"
  shows "map fst (filter snd (zip xs (map Q ys))) =
         map (\<lambda>i. xs ! i) (filter (\<lambda>i. Q (ys ! i)) [0..<length xs])"
proof -
  have "zip xs (map Q ys) = map (\<lambda>i. (xs ! i, Q (ys ! i))) [0..<length xs]"
    using assms by (simp add: zip_conv_nth)
  then show ?thesis
    by (simp add: filter_map comp_def)
qed

text \<open>
  C5. For point and companion arrays with the same number of rows (the companion with at
  least two columns), \<open>keep_true_keypoints\<close> returns the rows \<open>i\<close> of \<open>points\<close> for which
  row \<open>i\<close> of the companion has its first coordinate in \<open>[0, height)\<close> and its second in
  \<open>[0, width)\<close>, in order. The test reads the companion only: the coordinates of the
  point itself play no part.
\<close>

theorem keep_true_keypoints_by_companion:
  assumes "length (rows points) = length (rows ckw)" and "2 \<le> ncols ckw"
  shows "\<exists>out. keep_true_keypoints points ckw (height, width) = Inr out
           \<and> ncols out = ncols points
           \<and> rows out = map (\<lambda>i. rows points ! i)
                 (filter (\<lambda>i. 0 \<le> rows ckw ! i ! 0 \<and> rows ckw ! i ! 0 < of_int height
                              \<and> 0 \<le> rows ckw ! i ! 1 \<and> rows ckw ! i ! 1 < of_int width)
                    [0..<length (rows points)])"
proof -
  let ?Q = "\<lambda>c::real list. 0 \<le> c ! 0 \<and> c ! 0 < of_int height \<and> 0 \<le> c ! 1 \<and> c ! 1 < of_int width"
  have "keep_true_keypoints points ckw (height, width) =
          Inr (points\<lparr>rows := map (\<lambda>i. rows points ! i) (filter (\<lambda>i. ?Q (rows ckw ! i)) [0..<length (rows points)])\<rparr>)"
    using assms
    by (simp add: keep_true_keypoints_def column_def bool_index_def bounds_mask_columns
        masked_rows_index)
  then show ?thesis by auto
qed

theorem keep_true_keypoints_by_companion_witness:
  "\<exists>out. keep_true_keypoints \<lparr>ncols = 3, rows = [[9, 9, 1], [1, 1, 1]]\<rparr>
            \<lparr>ncols = 3, rows = [[2, 3, 1], [7, 0, 1]]\<rparr> (4, 5) = Inr out
     \<and> rows out = [[9, 9, 1]]"
  using keep_true_keypoints_by_companion
    [of "\<lparr>ncols = 3, rows = [[9, 9, 1], [1, 1, 1]]\<rparr>"
        "\<lparr>ncols = 3, rows = [[2, 3, 1], [7, 0, 1]]\<rparr>" 4 5]
  by (auto simp: upt_rec)

section \<open>Normalisation\<close>

lemma normalize_row_inverse:
  "length r = length f \<Longrightarrow> length f = length a \<Longrightarrow> 0 \<notin> set f \<Longrightarrow>
     map2 (*) (map2 (+) (map2 (-) (map2 (/) r f) a) a) f = (r :: real list)"
proof (induction r f a rule: list_induct3)
  case Nil
  then show ?case by simp
next
  case (Cons x xs y ys z zs)
  then show ?case by simp
qed

lemma unnormalize_row_inverse:
  "length r = length f \<Longrightarrow> length f = length a \<Longrightarrow> 0 \<notin> set f \<Longrightarrow>
     map2 (-) (map2 (/) (map2 (*) (map2 (+) r a) f) f) a = (r :: real list)"
proof (induction r f a rule: list_induct3)
  case Nil
  then show ?case by simp
next
  case (Cons x xs y ys z zs)
  then show ?case by simp
qed

text \<open>
  C7. For every well-formed array of points \<open>kp\<close> and every scale \<open>f\<close> and anchor \<open>a\<close>
  with one entry per column, no scale entry being zero, \<open>normalize_keypoints\<close> and
  \<open>unnormalize_keypoints\<close> with the same \<open>f\<close> and \<open>a\<close> are mutual inverses: each
  returns, and the other applied to its result returns \<open>kp\<close> itself. In real arithmetic
  \<open>(p / f - a + a) * f = p\<close> and \<open>(p + a) * f / f - a = p\<close>.
\<close>

theorem unnormalize_normalize_keypoints:
  assumes "wf_ndarray kp" and "length f = ncols kp" and "length a = ncols kp"
    and "0 \<notin> set f"
  shows "(\<exists>q. normalize_keypoints kp f a = Inr q \<and> unnormalize_keypoints q f a = Inr kp)
       \<and> (\<exists>u. unnormalize_keypoints kp f a = Inr u \<and> normalize_keypoints u f a = Inr kp)"
proof
  let ?q = "kp\<lparr>rows := map (\<lambda>r. map2 (-) (map2 (/) r f) a) (rows kp)\<rparr>"
  have n: "normalize_keypoints kp f a = Inr ?q"
    using assms(2,3) by (simp add: normalize_keypoints_def broadcast_def)
  have "map (\<lambda>r. map2 (*) (map2 (+) (map2 (-) (map2 (/) r f) a) a) f) (rows kp) = rows kp"
    using assms by (intro map_idI normalize_row_inverse) (auto simp: wf_ndarray_def list_all_iff)
  then have "unnormalize_keypoints ?q f a = Inr kp"
    using assms(2,3) by (simp add: unnormalize_keypoints_def broadcast_def comp_def)
  with n show "\<exists>q. normalize_keypoints kp f a = Inr q \<and> unnormalize_keypoints q f a = Inr kp"
    by blast
next
  let ?u = "kp\<lparr>rows := map (\<lambda>r. map2 (*) (map2 (+) r a) f) (rows kp)\<rparr>"
  have n: "unnormalize_keypoints kp f a = Inr ?u"
    using assms(2,3) by (simp add: unnormalize_keypoints_def broadcast_def)
  have "map (\<lambda>r. map2 (-) (map2 (/) (map2 (*) (map2 (+) r a) f) f) a) (rows kp) = rows kp"
    using assms by (intro map_idI unnormalize_row_inverse) (auto simp: wf_ndarray_def list_all_iff)
  then have "normalize_keypoints ?u f a = Inr kp"
    using assms(2,3) by (simp add: normalize_keypoints_def broadcast_def comp_def)
  with n show "\<exists>u. unnormalize_keypoints kp f a = Inr u \<and> normalize_keypoints u f a = Inr kp"
    by blast
qed

theorem unnormalize_normalize_keypoints_witness:
  "(\<exists>q. normalize_keypoints \<lparr>ncols = 2, rows = [[30, 40]]\<rparr> [160, 120] [1, 1] = Inr q
      \<and> unnormalize_keypoints q [160, 120] [1, 1] = Inr \<lparr>ncols = 2, rows = [[30, 40]]\<rparr>)
   \<and> (\<exists>u. unnormalize_keypoints \<lparr>ncols = 2, rows = [[30, 40]]\<rparr> [160, 120] [1, 1] = Inr u
      \<and> normalize_keypoints u [160, 120] [1, 1] = Inr \<lparr>ncols = 2, rows = [[30, 40]]\<rparr>)"
  using unnormalize_normalize_keypoints [of "\<lparr>ncols = 2, rows = [[30, 40]]\<rparr>" "[160, 120]" "[1, 1]"]
  by (simp add: wf_ndarray_def)

section \<open>Top-k selection\<close>

lemma argsort_stable_ok: "argsort_ok argsort_stable"
  by (simp add: argsort_ok_def argsort_stable_def)

lemma argsort_ok_indices:
  assumes "argsort_ok argsort"
  shows "set (argsort ks) = {0..<length ks}" and "length (argsort ks) = length ks"
proof -
  have m: "mset (argsort ks) = mset [0..<length ks]"
    using assms by (simp add: argsort_ok_def)
  from m have "set_mset (mset (argsort ks)) = set_mset (mset [0..<length ks])" by simp
  then show "set (argsort ks) = {0..<length ks}" by simp
  from m have "size (mset (argsort ks)) = size (mset [0..<length ks])" by simp
  then show "length (argsort ks) = length ks" by simp
qed

lemma argsort_ok_sorted:
  assumes "argsort_ok argsort"
  shows "sorted (map (\<lambda>i. rs ! i ! 2) (argsort (map (\<lambda>r. r ! 2) rs)))"
proof -
  let ?ks = "map (\<lambda>r. r ! 2) rs"
  have s: "sorted (map (\<lambda>i. ?ks ! i) (argsort ?ks))"
    using assms by (simp add: argsort_ok_def)
  have "map (\<lambda>i. ?ks ! i) (argsort ?ks) = map (\<lambda>i. rs ! i ! 2) (argsort ?ks)"
    using argsort_ok_indices(1) [OF assms, of ?ks] by (intro map_cong) auto
  with s show ?thesis by simp
qed

lemma select_k_best_rows:
  assumes "3 \<le> ncols S"
  shows "select_k_best argsort S k =
           Inr \<lparr>ncols = 2,
                rows = slice_from (- min k (int (length (rows S))))
                         (map (\<lambda>i. take 2 (rows S ! i)) (argsort (map (\<lambda>r. r ! 2) (rows S))))\<rparr>"
  using assms by (simp add: select_k_best_def column_def Let_def)

text \<open>With the stable \<open>argsort\<close> the rows come in the order of a stable sort by confidence.\<close>

lemma map_insort_key:
  "map g (insort_key (\<lambda>x. f (g x)) x ys) = insort_key f (g x) (map g ys)"
  by (induction ys) auto

lemma map_sort_key:
  "map g (sort_key (\<lambda>x. f (g x)) xs) = sort_key f (map g xs)"
  by (induction xs) (auto simp: map_insort_key)

lemma insort_key_cong_set:
  "f x = g x \<Longrightarrow> (\<And>y. y \<in> set ys \<Longrightarrow> f y = g y) \<Longrightarrow> insort_key f x ys = insort_key g x ys"
  by (induction ys) auto

lemma sort_key_cong_set:
  "(\<And>x. x \<in> set xs \<Longrightarrow> f x = g x) \<Longrightarrow> sort_key f xs = sort_key g xs"
proof (induction xs)
  case Nil
  then show ?case by simp
next
  case (Cons x xs)
  then have "sort_key f xs = sort_key g xs" by simp
  moreover have "insort_key f x (sort_key g xs) = insort_key g x (sort_key g xs)"
    using Cons.prems by (intro insort_key_cong_set) auto
  ultimately show ?case by simp
qed

lemma argsort_stable_rows:
  "map (\<lambda>i. rs ! i) (argsort_stable (map (\<lambda>r. r ! 2) rs)) = sort_key (\<lambda>r. r ! 2) rs"
proof -
  have "sort_key (\<lambda>i. map (\<lambda>r. r ! 2) rs ! i) [0..<length rs]
          = sort_key (\<lambda>i. rs ! i ! 2) [0..<length rs]"
    by (rule sort_key_cong_set) simp
  then have "map (\<lambda>i. rs ! i) (argsort_stable (map (\<lambda>r. r ! 2) rs))
               = map (\<lambda>i. rs ! i) (sort_key (\<lambda>i. rs ! i ! 2) [0..<length rs])"
    by (simp add: argsort_stable_def)
  also have "\<dots> = sort_key (\<lambda>r. r ! 2) (map (\<lambda>i. rs ! i) [0..<length rs])"
    by (rule map_sort_key)
  finally show ?thesis by (simp add: map_nth)
qed

lemma select_k_best_stable_spec:
  assumes "3 \<le> ncols S" and "1 \<le> k"
  shows "select_k_best argsort_stable S k = Inr \<lparr>ncols = 2, rows = select_top_k_spec S k\<rparr>"
proof -
  let ?p = "argsort_stable (map (\<lambda>r. r ! 2) (rows S))"
  have "map (\<lambda>i. take 2 (rows S ! i)) ?p = map (take 2) (map (\<lambda>i. rows S ! i) ?p)"
    by (simp add: comp_def)
  then have m: "map (\<lambda>i. take 2 (rows S ! i)) ?p = map (take 2) (sort_key (\<lambda>r. r ! 2) (rows S))"
    by (simp only: argsort_stable_rows)
  have "slice_from (- min k (int (length (rows S)))) (map (take 2) (sort_key (\<lambda>r. r ! 2) (rows S)))
          = select_top_k_spec S k"
    using assms(2)
    by (auto simp: slice_from_def select_top_k_spec_def Let_def drop_map min_def nat_diff_distrib')
  then show ?thesis
    by (simp add: select_k_best_rows [OF assms(1)] m)
qed

text \<open>On a well-formed array the rows that \<open>select_k_best\<close> returns have two coordinates.\<close>

lemma set_slice_from: "set (slice_from i xs) \<subseteq> set xs"
  by (auto simp: slice_from_def dest: in_set_dropD)

lemma select_k_best_rows2:
  assumes "argsort_ok argsort" and "wf_ndarray S" and "select_k_best argsort S k = Inr R"
  shows "rows2 (rows R)"
proof -
  have c: "3 \<le> ncols S"
    using assms(3) by (auto simp: select_k_best_def column_def split: if_splits)
  let ?p = "argsort (map (\<lambda>r. r ! 2) (rows S))"
  have "length (take 2 (rows S ! i)) = 2" if "i \<in> set ?p" for i
  proof -
    from that have "i < length (rows S)"
      using argsort_ok_indices(1) [OF assms(1), of "map (\<lambda>r. r ! 2) (rows S)"] by simp
    then have "length (rows S ! i) = ncols S"
      using assms(2) by (simp add: wf_ndarray_def list_all_length)
    with c show ?thesis by simp
  qed
  then have a: "\<forall>r \<in> set (map (\<lambda>i. take 2 (rows S ! i)) ?p). length r = 2" by auto
  have "length r = 2"
    if "r \<in> set (slice_from (- min k (int (length (rows S)))) (map (\<lambda>i. take 2 (rows S ! i)) ?p))"
    for r
  proof -
    from that have "r \<in> set (map (\<lambda>i. take 2 (rows S ! i)) ?p)"
      by (rule rev_subsetD) (rule set_slice_from)
    with a show ?thesis by (rule bspec)
  qed
  moreover have "rows R = slice_from (- min k (int (length (rows S))))
                 (map (\<lambda>i. take 2 (rows S ! i)) ?p)"
    using assms(3) by (auto simp: select_k_best_rows [OF c])
  ultimately show ?thesis by (simp add: rows2_def list_all_iff)
qed

text \<open>
  C10. With \<open>k = 0\<close> the slice \<^verbatim>\<open>sorted_prob[-0:, :]\<close> is the whole array: on an array
  with a confidence column \<open>select_k_best\<close> returns the two coordinates of every row, in
  an order \<open>p\<close> of all the row indices along which the confidences ascend. The result has
  as many rows as the input, so it is empty only when the input is.
\<close>

theorem select_k_best_zero_keeps_all:
  assumes "argsort_ok argsort" and "3 \<le> ncols S"
  shows "\<exists>p. mset p = mset [0..<length (rows S)]
           \<and> sorted (map (\<lambda>i. rows S ! i ! 2) p)
           \<and> select_k_best argsort S 0 = Inr \<lparr>ncols = 2, rows = map (\<lambda>i. take 2 (rows S ! i)) p\<rparr>
           \<and> length (map (\<lambda>i. take 2 (rows S ! i)) p) = length (rows S)
           \<and> (map (\<lambda>i. take 2 (rows S ! i)) p = [] \<longleftrightarrow> rows S = [])"
proof -
  let ?p = "argsort (map (\<lambda>r. r ! 2) (rows S))"
  have m: "mset ?p = mset [0..<length (rows S)]"
    using assms(1) by (simp add: argsort_ok_def)
  have l: "length ?p = length (rows S)"
    using argsort_ok_indices(2) [OF assms(1), of "map (\<lambda>r. r ! 2) (rows S)"] by simp
  have s: "sorted (map (\<lambda>i. rows S ! i ! 2) ?p)"
    by (rule argsort_ok_sorted [OF assms(1)])
  have e: "select_k_best argsort S 0 = Inr \<lparr>ncols = 2, rows = map (\<lambda>i. take 2 (rows S ! i)) ?p\<rparr>"
    by (simp add: select_k_best_rows [OF assms(2)] slice_from_def)
  from l have n: "(map (\<lambda>i. take 2 (rows S ! i)) ?p = []) = (rows S = [])"
    by (metis length_0_conv length_map)
  from m s e l n show ?thesis by (intro exI [of _ ?p]) simp
qed

theorem select_k_best_zero_keeps_all_witness:
  "\<exists>p. select_k_best argsort_stable \<lparr>ncols = 3, rows = [[1, 2, 9 / 10], [3, 4, 5 / 10]]\<rparr> 0
          = Inr \<lparr>ncols = 2, rows = map (\<lambda>i. take 2 ([[1, 2, 9 / 10], [3, 4, 5 / 10]] ! i)) p\<rparr>
     \<and> length (map (\<lambda>i. take 2 ([[1, 2, 9 / 10], [3, 4, 5 / 10 :: real]] ! i)) p) = 2"
  using select_k_best_zero_keeps_all
    [OF argsort_stable_ok, of "\<lparr>ncols = 3, rows = [[1, 2, 9 / 10], [3, 4, 5 / 10]]\<rparr>"]
  by auto

text \<open>
  For \<open>k \<ge> 1\<close>, on an array with a confidence column, \<open>select_k_best\<close> returns the two
  coordinates of the last \<open>min(k, N)\<close> rows in the order \<open>p\<close> in which \<open>argsort\<close> puts the
  confidences in ascending order. With the stable \<open>argsort\<close> the result is the one the
  specification words, \<open>select_top_k_spec\<close>.
\<close>

lemma select_k_best_positive_k:
  assumes "argsort_ok argsort" and "3 \<le> ncols S" and "1 \<le> k"
  shows "(\<exists>p. mset p = mset [0..<length (rows S)]
           \<and> sorted (map (\<lambda>i. rows S ! i ! 2) p)
           \<and> select_k_best argsort S k =
               Inr \<lparr>ncols = 2,
                    rows = map (\<lambda>i. take 2 (rows S ! i))
                             (drop (length p - nat (min k (int (length (rows S))))) p)\<rparr>)
         \<and> select_k_best argsort_stable S k = Inr \<lparr>ncols = 2, rows = select_top_k_spec S k\<rparr>"
proof -
  let ?p = "argsort (map (\<lambda>r. r ! 2) (rows S))"
  have m: "mset ?p = mset [0..<length (rows S)]"
    using assms(1) by (simp add: argsort_ok_def)
  have l: "length ?p = length (rows S)"
    using argsort_ok_indices(2) [OF assms(1), of "map (\<lambda>r. r ! 2) (rows S)"] by simp
  have s: "sorted (map (\<lambda>i. rows S ! i ! 2) ?p)"
    by (rule argsort_ok_sorted [OF assms(1)])
  have "slice_from (- min k (int (length (rows S)))) (map (\<lambda>i. take 2 (rows S ! i)) ?p)
          = map (\<lambda>i. take 2 (rows S ! i)) (drop (length ?p - nat (min k (int (length (rows S))))) ?p)"
    using assms(3) l by (auto simp: slice_from_def drop_map min_def nat_diff_distrib')
  then have e: "select_k_best argsort S k =
               Inr \<lparr>ncols = 2,
                    rows = map (\<lambda>i. take 2 (rows S ! i))
                             (drop (length ?p - nat (min k (int (length (rows S))))) ?p)\<rparr>"
    by (simp add: select_k_best_rows [OF assms(2)])
  from m s e have "\<exists>p. mset p = mset [0..<length (rows S)]
           \<and> sorted (map (\<lambda>i. rows S ! i ! 2) p)
           \<and> select_k_best argsort S k =
               Inr \<lparr>ncols = 2,
                    rows = map (\<lambda>i. take 2 (rows S ! i))
                             (drop (length p - nat (min k (int (length (rows S))))) p)\<rparr>"
    by (intro exI [of _ ?p]) simp
  then show ?thesis
    using select_k_best_stable_spec [OF assms(2,3)] by simp
qed

lemma select_k_best_positive_k_example:
  "select_k_best argsort_stable
     \<lparr>ncols = 3, rows = [[1, 2, 5 / 10], [3, 4, 2 / 10], [5, 6, 9 / 10]]\<rparr> 2
     = Inr \<lparr>ncols = 2, rows = [[1, 2], [5, 6]]\<rparr>"
proof -
  have "select_top_k_spec \<lparr>ncols = 3, rows = [[1, 2, 5 / 10], [3, 4, 2 / 10], [5, 6, 9 / 10]]\<rparr> 2
          = [[1, 2], [5, 6]]"
    by (simp add: select_top_k_spec_def)
  then show ?thesis
    using select_k_best_positive_k
      [OF argsort_stable_ok,
       of "\<lparr>ncols = 3, rows = [[1, 2, 5 / 10], [3, 4, 2 / 10], [5, 6, 9 / 10]]\<rparr>" 2]
    by simp
qed

text \<open>
  C4. The claim is that \<open>select_k_best(S, k)\<close> is the last \<open>min(k, |S|)\<close> rows of \<open>S\<close> in
  ascending order of confidence, the confidence stripped, for every \<open>k\<close>. For the one-row
  array \<open>S = [(1, 2, 0.5)]\<close> and \<open>k = 0\<close> those are the last \<open>0\<close> rows, that is none, which
  is also what the docstring of \<open>select_k_best\<close> asks for (the \<open>k\<close> most probable
  points); the code evaluates \<^verbatim>\<open>sorted_prob[-0:, :]\<close> and returns the row \<open>(1, 2)\<close>.
\<close>

theorem select_k_best_zero_failing_input:
  "select_k_best argsort_stable \<lparr>ncols = 3, rows = [[1, 2, 5 / 10]]\<rparr> 0
     = Inr \<lparr>ncols = 2, rows = [[1, 2]]\<rparr>
   \<and> select_top_k_spec \<lparr>ncols = 3, rows = [[1, 2, 5 / 10]]\<rparr> 0 = []"
  by (simp add: select_k_best_def column_def argsort_stable_def slice_from_def
      select_top_k_spec_def)

text \<open>
  C9, as the code has it. \<open>select_k_best\<close> returns an array of two columns, the
  confidence stripped, and \<open>select_k_best\<close> reads column 2 of its argument: applied to
  its own result it raises IndexError, whatever \<open>k\<close> and \<open>argsort\<close> are.
\<close>

theorem select_k_best_not_reapplicable:
  assumes "3 \<le> ncols S"
  shows "\<exists>R. select_k_best argsort S k = Inr R \<and> ncols R = 2
           \<and> select_k_best argsort R k = Inl IndexError"
  using assms by (simp add: select_k_best_def column_def Let_def)

theorem select_k_best_not_reapplicable_witness:
  "\<exists>R. select_k_best argsort_stable \<lparr>ncols = 3, rows = [[1, 2, 5 / 10], [3, 4, 2 / 10]]\<rparr> 1 = Inr R
     \<and> ncols R = 2 \<and> select_k_best argsort_stable R 1 = Inl IndexError"
  using select_k_best_not_reapplicable
    [of "\<lparr>ncols = 3, rows = [[1, 2, 5 / 10], [3, 4, 2 / 10]]\<rparr>" argsort_stable 1]
  by simp

theorem select_k_best_twice_counterexample:
  "select_k_best argsort_stable \<lparr>ncols = 3, rows = [[1, 2, 5 / 10]]\<rparr> 1
     = Inr \<lparr>ncols = 2, rows = [[1, 2]]\<rparr>
   \<and> select_k_best argsort_stable \<lparr>ncols = 2, rows = [[1, 2]]\<rparr> 1
     \<noteq> select_k_best argsort_stable \<lparr>ncols = 3, rows = [[1, 2, 5 / 10]]\<rparr> 1"
  by (simp add: select_k_best_def column_def argsort_stable_def slice_from_def)

section \<open>Repeatability and localization error\<close>

lemma row_norm_euclid:
  "length p = 2 \<Longrightarrow> length q = 2 \<Longrightarrow> row_norm p q = euclid p q"
  by (cases p; cases q) (auto simp: row_norm_def euclid_def length_Suc_conv)

lemma row_norm_nonneg: "0 \<le> row_norm p q"
  unfolding row_norm_def
  by (intro real_sqrt_ge_zero sum_list_nonneg) auto

lemma euclid_commute: "euclid p q = euclid q p"
  by (simp add: euclid_def power2_commute)

lemma count_and_error_filter:
  "count_and_error (map g xs) t =
     (length (filter (\<lambda>x. g x \<le> t) xs), sum_list (map g (filter (\<lambda>x. g x \<le> t) xs)))"
  by (induction xs) (auto simp: count_and_error_def Let_def)

lemma min_axis1_norm:
  assumes "B \<noteq> []"
  shows "min_axis1 (norm_matrix A B) = map (\<lambda>p. Min ((\<lambda>q. row_norm p q) ` set B)) A"
  using assms by (simp add: min_axis1_def norm_matrix_def comp_def min_list_Min)

lemma min_axis0_norm:
  assumes "A \<noteq> []"
  shows "min_axis0 (length B) (norm_matrix A B) = map (\<lambda>q. Min ((\<lambda>p. row_norm p q) ` set A)) B"
proof -
  have "min_axis0 (length B) (norm_matrix A B)
          = map (\<lambda>j. min_list (map (\<lambda>p. row_norm p (B ! j)) A)) [0..<length B]"
    by (simp add: min_axis0_def norm_matrix_def comp_def)
  also have "\<dots> = map (\<lambda>j. Min ((\<lambda>p. row_norm p (B ! j)) ` set A)) [0..<length B]"
    using assms by (simp add: min_list_Min)
  also have "\<dots> = map (\<lambda>q. Min ((\<lambda>p. row_norm p q) ` set A)) (map (\<lambda>j. B ! j) [0..<length B])"
    by (simp add: comp_def)
  finally show ?thesis by (simp add: map_nth)
qed

lemma nearest_axis1:
  assumes "rows2 A" and "rows2 B" and "B \<noteq> []"
  shows "min_axis1 (norm_matrix A B) = map (\<lambda>p. nearest p B) A"
proof -
  have "map (\<lambda>p. Min ((\<lambda>q. row_norm p q) ` set B)) A = map (\<lambda>p. nearest p B) A"
  proof (rule map_cong [OF refl])
    fix p assume "p \<in> set A"
    then have "length p = 2" using assms(1) by (simp add: rows2_def list_all_iff)
    then have "(\<lambda>q. row_norm p q) ` set B = (\<lambda>q. euclid p q) ` set B"
      using assms(2) by (intro image_cong refl row_norm_euclid) (auto simp: rows2_def list_all_iff)
    then show "Min ((\<lambda>q. row_norm p q) ` set B) = nearest p B"
      by (simp add: nearest_def)
  qed
  then show ?thesis by (simp add: min_axis1_norm [OF assms(3)])
qed

lemma nearest_axis0:
  assumes "rows2 A" and "rows2 B" and "A \<noteq> []"
  shows "min_axis0 (length B) (norm_matrix A B) = map (\<lambda>q. nearest q A) B"
proof -
  have "map (\<lambda>q. Min ((\<lambda>p. row_norm p q) ` set A)) B = map (\<lambda>q. nearest q A) B"
  proof (rule map_cong [OF refl])
    fix q assume "q \<in> set B"
    then have "length q = 2" using assms(2) by (simp add: rows2_def list_all_iff)
    then have "(\<lambda>p. row_norm p q) ` set A = (\<lambda>p. euclid q p) ` set A"
      using assms(1)
      by (intro image_cong refl) (auto simp: rows2_def list_all_iff row_norm_euclid euclid_commute)
    then show "Min ((\<lambda>p. row_norm p q) ` set A) = nearest q A"
      by (simp add: nearest_def)
  qed
  then show ?thesis by (simp add: min_axis0_norm [OF assms(3)])
qed

lemma count_and_error_matched:
  assumes "Q \<noteq> []"
  shows "count_and_error (map (\<lambda>p. nearest p Q) P) t = (count_AB P Q t, loc_err_AB P Q t)"
  using assms by (simp add: count_and_error_filter count_AB_def loc_err_AB_def matched_def)

lemma matched_empty: "count_AB P [] t = 0" "loc_err_AB P [] t = 0"
  by (simp_all add: count_AB_def loc_err_AB_def matched_def)

lemma count_AB_Nil: "count_AB [] Q t = 0" "loc_err_AB [] Q t = 0"
  by (simp_all add: count_AB_def loc_err_AB_def matched_def)

lemma repeatability_metric_counts:
  assumes "rows2 A" and "rows2 B"
  shows "repeatability_metric A B t =
     (if 0 < count_AB A B t + count_AB B A t
      then (length A, length B,
            real (count_AB A B t + count_AB B A t) / real (length A + length B),
            (loc_err_AB A B t + loc_err_AB B A t) / real (count_AB A B t + count_AB B A t))
      else (length A, length B, - 1, - 1))"
proof -
  have 1: "(if length B \<noteq> 0 then count_and_error (min_axis1 (norm_matrix A B)) t else (0, 0))
             = (count_AB A B t, loc_err_AB A B t)"
    using assms by (auto simp: nearest_axis1 count_and_error_matched matched_empty)
  have 2: "(if length A \<noteq> 0 then count_and_error (min_axis0 (length B) (norm_matrix A B)) t else (0, 0))
             = (count_AB B A t, loc_err_AB B A t)"
    using assms by (auto simp: nearest_axis0 count_and_error_matched matched_empty)
  have 3: "0 < count_AB A B t + count_AB B A t \<Longrightarrow> 0 < length A + length B"
    by (cases A) (auto simp: count_AB_Nil matched_empty)
  show ?thesis
    unfolding repeatability_metric_def Let_def 1 2 using 3 by auto
qed

lemma nearest_nonneg: "Q \<noteq> [] \<Longrightarrow> 0 \<le> nearest p Q"
  by (auto simp: nearest_def euclid_def)

lemma loc_err_AB_nonneg: "0 \<le> loc_err_AB P Q t"
  unfolding loc_err_AB_def matched_def
  by (intro sum_list_nonneg) (auto simp: nearest_nonneg)

lemma count_AB_le: "count_AB P Q t \<le> length P"
  by (simp add: count_AB_def matched_def)

lemma far_apart_unmatched:
  assumes "\<forall>p \<in> set P. \<forall>q \<in> set Q. t < euclid p q"
  shows "count_AB P Q t = 0"
proof -
  have "\<not> (Q \<noteq> [] \<and> nearest p Q \<le> t)" if "p \<in> set P" for p
  proof
    assume a: "Q \<noteq> [] \<and> nearest p Q \<le> t"
    then have "nearest p Q \<in> (\<lambda>q. euclid p q) ` set Q"
      unfolding nearest_def by (intro Min_in) auto
    then obtain q where "q \<in> set Q" "nearest p Q = euclid p q" by auto
    with assms that a show False by force
  qed
  then show ?thesis by (simp add: count_AB_def matched_def)
qed

text \<open>
  C1. For two point sets of two-coordinate rows, the first of size \<open>N1\<close> and the second of
  size \<open>N2\<close>, with \<open>count1\<close> the number of points of the first set whose nearest
  neighbour in the second is within \<open>distance_thresh\<close>, \<open>le1\<close> the sum of those
  nearest-neighbour distances, and \<open>count2\<close>, \<open>le2\<close> the same from the second set to the
  first: when \<open>count1 + count2 > 0\<close> the metric returns \<open>N1\<close>, \<open>N2\<close>, the repeatability
  \<open>(count1 + count2) / (N1 + N2)\<close> and the localization error
  \<open>(le1 + le2) / (count1 + count2)\<close>.
\<close>

theorem repeatability_formula:
  assumes "rows2 A" and "rows2 B"
    and "0 < count_AB A B t + count_AB B A t"
  shows "repeatability_metric A B t =
           (length A, length B,
            real (count_AB A B t + count_AB B A t) / real (length A + length B),
            (loc_err_AB A B t + loc_err_AB B A t) / real (count_AB A B t + count_AB B A t))"
  using assms by (simp add: repeatability_metric_counts)

theorem repeatability_formula_witness:
  "0 < count_AB [[0, 0]] [[0, 0]] 3 + count_AB [[0, 0]] [[0, 0]] 3
    \<and> repeatability_metric [[0, 0]] [[0, 0]] 3 = (1, 1, 1, 0)"
proof -
  have n: "nearest [0, 0] [[0, 0]] = 0" by (simp add: nearest_def euclid_def)
  have c: "count_AB [[0, 0]] [[0, 0]] 3 = 1" "loc_err_AB [[0, 0]] [[0, 0]] 3 = 0"
    by (simp_all add: count_AB_def loc_err_AB_def matched_def n)
  show ?thesis
    using repeatability_formula [of "[[0, 0]]" "[[0, 0]]" 3]
    by (simp add: rows2_def c)
qed

text \<open>
  A run with two points in each set: the nearest-neighbour distances are \<open>0\<close> and \<open>1\<close> in
  both directions, all four points match within the threshold \<open>3\<close>, the repeatability
  is \<open>4 / 4\<close> and the localization error \<open>2 / 4\<close>.
\<close>

lemma repeatability_metric_scenario:
  "repeatability_metric [[0, 0], [10, 10]] [[0, 0], [10, 11]] 3 = (2, 2, 1, 1 / 2)"
proof -
  have n: "norm_matrix [[0, 0], [10, 10]] [[0, 0], [10, 11]] = [[0, sqrt 221], [sqrt 200, 1]]"
    by (simp add: norm_matrix_def row_norm_def)
  have m1: "min_axis1 [[0, sqrt 221], [sqrt 200, 1]] = [0, 1]"
    by (simp add: min_axis1_def min_def)
  have m0: "min_axis0 (Suc (Suc 0)) [[0, sqrt 221], [sqrt 200, 1]] = [0, 1]"
    by (simp add: min_axis0_def min_def upt_rec)
  have c: "count_and_error [0, 1] 3 = (2, 1)"
    by (simp add: count_and_error_def)
  show ?thesis
    by (simp add: repeatability_metric_def n m1 m0 c)
qed

text \<open>
  C2. For two point sets of two-coordinate rows the returned repeatability is \<open>-1\<close>
  exactly when both sets are empty or \<open>count1 + count2 = 0\<close>, and so is the returned
  localization error; in particular both are \<open>-1\<close> when every distance between a point
  of the first set and a point of the second exceeds \<open>distance_thresh\<close>.
\<close>

theorem repeatability_sentinel:
  assumes "rows2 A" and "rows2 B"
  shows "\<exists>rep le. repeatability_metric A B t = (length A, length B, rep, le)
           \<and> (rep = - 1 \<longleftrightarrow> (length A = 0 \<and> length B = 0) \<or> count_AB A B t + count_AB B A t = 0)
           \<and> (le = - 1 \<longleftrightarrow> (length A = 0 \<and> length B = 0) \<or> count_AB A B t + count_AB B A t = 0)
           \<and> ((\<forall>p \<in> set A. \<forall>q \<in> set B. t < euclid p q) \<longrightarrow> rep = - 1 \<and> le = - 1)"
proof (cases "0 < count_AB A B t + count_AB B A t")
  case True
  let ?c = "count_AB A B t + count_AB B A t"
  have ne: "A \<noteq> []" using True by (cases A) (auto simp: count_AB_Nil matched_empty)
  have "0 \<le> real ?c / real (length A + length B)" by simp
  then have r: "real ?c / real (length A + length B) \<noteq> - 1" by linarith
  have "0 \<le> (loc_err_AB A B t + loc_err_AB B A t) / real ?c"
    by (intro divide_nonneg_nonneg add_nonneg_nonneg loc_err_AB_nonneg) simp
  then have l: "(loc_err_AB A B t + loc_err_AB B A t) / real ?c \<noteq> - 1" by linarith
  have f: "\<not> (\<forall>p \<in> set A. \<forall>q \<in> set B. t < euclid p q)"
  proof
    assume a: "\<forall>p \<in> set A. \<forall>q \<in> set B. t < euclid p q"
    then have "\<forall>q \<in> set B. \<forall>p \<in> set A. t < euclid q p" by (metis euclid_commute)
    then have "count_AB B A t = 0" by (rule far_apart_unmatched)
    moreover have "count_AB A B t = 0" using a by (rule far_apart_unmatched)
    ultimately show False using True by simp
  qed
  show ?thesis
    using True ne r l f by (simp add: repeatability_metric_counts [OF assms])
next
  case False
  moreover have "length A = 0 \<and> length B = 0 \<Longrightarrow> count_AB A B t + count_AB B A t = 0"
    by (simp add: count_AB_Nil)
  ultimately show ?thesis
    by (auto simp: repeatability_metric_counts [OF assms])
qed

theorem repeatability_sentinel_witness:
  "repeatability_metric [[0, 0]] [[10, 0]] 3 = (1, 1, - 1, - 1)"
proof -
  have "3 < euclid [0, 0] [10, 0]"
    by (simp add: euclid_def real_less_rsqrt)
  then show ?thesis
    using repeatability_sentinel [of "[[0, 0]]" "[[10, 0]]" 3]
    by (auto simp: rows2_def)
qed

lemma count_and_error_bounds:
  assumes "\<forall>m \<in> set mins. 0 \<le> m"
  shows "fst (count_and_error mins t) \<le> length mins" and "0 \<le> snd (count_and_error mins t)"
proof -
  have "count_and_error (map id mins) t =
     (length (filter (\<lambda>x. id x \<le> t) mins), sum_list (map id (filter (\<lambda>x. id x \<le> t) mins)))"
    by (rule count_and_error_filter)
  then have e: "count_and_error mins t = (length (filter (\<lambda>x. x \<le> t) mins), sum_list (filter (\<lambda>x. x \<le> t) mins))"
    by simp
  show "fst (count_and_error mins t) \<le> length mins" by (simp add: e)
  show "0 \<le> snd (count_and_error mins t)"
    unfolding e using assms by (auto intro!: sum_list_nonneg)
qed

lemma min_axis1_nonneg:
  assumes "B \<noteq> []" shows "\<forall>m \<in> set (min_axis1 (norm_matrix A B)). 0 \<le> m"
  using assms by (auto simp: min_axis1_norm row_norm_nonneg)

lemma min_axis0_nonneg:
  assumes "A \<noteq> []" shows "\<forall>m \<in> set (min_axis0 (length B) (norm_matrix A B)). 0 \<le> m"
  using assms by (auto simp: min_axis0_norm row_norm_nonneg)

lemma min_axis_lengths:
  "length (min_axis1 (norm_matrix A B)) = length A"
  "length (min_axis0 (length B) (norm_matrix A B)) = length B"
  by (simp_all add: min_axis1_def min_axis0_def norm_matrix_def)

lemma repeatability_metric_range:
  "\<exists>rep le. repeatability_metric A B t = (length A, length B, rep, le)
     \<and> (rep = - 1 \<or> (0 \<le> rep \<and> rep \<le> 1)) \<and> (le = - 1 \<or> 0 \<le> le)"
proof -
  define c1 where "c1 = (if length B \<noteq> 0 then count_and_error (min_axis1 (norm_matrix A B)) t else (0, 0))"
  define c2 where "c2 = (if length A \<noteq> 0 then count_and_error (min_axis0 (length B) (norm_matrix A B)) t else (0, 0))"
  have b1: "fst c1 \<le> length A" "0 \<le> snd c1"
    using count_and_error_bounds [OF min_axis1_nonneg, of B A t]
    by (auto simp: c1_def min_axis_lengths)
  have b2: "fst c2 \<le> length B" "0 \<le> snd c2"
    using count_and_error_bounds [OF min_axis0_nonneg, of A B t]
    by (auto simp: c2_def min_axis_lengths)
  have e: "repeatability_metric A B t =
     (if 0 < length A + length B \<and> 0 < fst c1 + fst c2
      then (length A, length B, real (fst c1 + fst c2) / real (length A + length B),
            (snd c1 + snd c2) / real (fst c1 + fst c2))
      else (length A, length B, - 1, - 1))"
    unfolding repeatability_metric_def Let_def c1_def [symmetric] c2_def [symmetric]
    by (simp add: case_prod_beta)
  have r: "real (fst c1 + fst c2) / real (length A + length B) \<le> 1"
    using b1(1) b2(1) by (simp add: divide_le_eq)
  have l: "0 \<le> (snd c1 + snd c2) / real (fst c1 + fst c2)"
    using b1(2) b2(2) by simp
  show ?thesis
    unfolding e using r l by auto
qed

section \<open>Every run of \<open>compute_repeatability_sonar\<close>\<close>

lemma bind_err_Inr [simp]: "bind_err (Inr x) f = f x"
  by (simp add: bind_err_def)

lemma bind_err_Inl [simp]: "bind_err (Inl e) f = Inl e"
  by (simp add: bind_err_def)

lemma sample_run:
  "compute_repeatability_sonar identity_externals sample_data 300 3 = Inr (1, 1, 1, 0)"
  by (simp add: compute_repeatability_sonar_def identity_externals_def sample_data_def
      normalize_keypoints_def unnormalize_keypoints_def broadcast_def first_two_columns_def
      column_def stack3_def assign_first_two_columns_def keep_true_keypoints_def
      filter_keypoints_def bool_index_def bounds_mask_def select_k_best_def argsort_stable_def
      slice_from_def repeatability_metric_def norm_matrix_def row_norm_def min_axis1_def
      min_axis0_def count_and_error_def Let_def)

lemma bind_err_InrE:
  assumes "bind_err m f = Inr r"
  obtains x where "m = Inr x" and "f x = Inr r"
  using assms by (cases m) (auto simp: bind_err_def)

lemma compute_repeatability_sonar_stage:
  assumes "compute_repeatability_sonar ext data k t = Inr r"
  shows "\<exists>A B. r = repeatability_metric A B t"
  using assms unfolding compute_repeatability_sonar_def Let_def
  by (elim bind_err_InrE) auto

text \<open>
  C8. For all point sets and every threshold the metric returns a repeatability that is
  \<open>-1\<close> or lies in \<open>[0, 1]\<close> and a localization error that is \<open>-1\<close> or at least \<open>0\<close>; hence
  so does every run of \<open>compute_repeatability_sonar\<close> that returns, whatever the
  transforms, the warp and the matrix inverse compute. The counts are at most the sizes
  of the sets and the distances summed are not negative.
\<close>

theorem repeatability_range:
  "(\<exists>rep le. repeatability_metric A B t = (length A, length B, rep, le)
      \<and> (rep = - 1 \<or> (0 \<le> rep \<and> rep \<le> 1)) \<and> (le = - 1 \<or> 0 \<le> le))
   \<and> (\<forall>N1 N2 rep le. compute_repeatability_sonar ext data k t = Inr (N1, N2, rep, le)
         \<longrightarrow> (rep = - 1 \<or> (0 \<le> rep \<and> rep \<le> 1)) \<and> (le = - 1 \<or> 0 \<le> le))"
proof (intro conjI allI impI)
  show "\<exists>rep le. repeatability_metric A B t = (length A, length B, rep, le)
      \<and> (rep = - 1 \<or> (0 \<le> rep \<and> rep \<le> 1)) \<and> (le = - 1 \<or> 0 \<le> le)"
    by (rule repeatability_metric_range)
next
  fix N1 N2 rep le
  assume "compute_repeatability_sonar ext data k t = Inr (N1, N2, rep, le)"
  then obtain P Q where "(N1, N2, rep, le) = repeatability_metric P Q t"
    using compute_repeatability_sonar_stage by blast
  moreover obtain rep' le' where "repeatability_metric P Q t = (length P, length Q, rep', le')"
    and "rep' = - 1 \<or> (0 \<le> rep' \<and> rep' \<le> 1)" and "le' = - 1 \<or> 0 \<le> le'"
    using repeatability_metric_range [of P Q t] by blast
  ultimately have "rep = rep'" and "le = le'" by simp_all
  with \<open>rep' = - 1 \<or> (0 \<le> rep' \<and> rep' \<le> 1)\<close> \<open>le' = - 1 \<or> 0 \<le> le'\<close>
  show "rep = - 1 \<or> (0 \<le> rep \<and> rep \<le> 1)" and "le = - 1 \<or> 0 \<le> le" by simp_all
qed

theorem repeatability_range_witness:
  "compute_repeatability_sonar identity_externals sample_data 300 3 = Inr (1, 1, 1, 0)
   \<and> ((1::real) = - 1 \<or> (0 \<le> (1::real) \<and> (1::real) \<le> 1)) \<and> ((0::real) = - 1 \<or> 0 \<le> (0::real))"
  using repeatability_range [of "[]" "[]" 3 identity_externals sample_data 300] sample_run
  by blast

end
